theory Spec2Isabelle
  imports Main "HOL-Library.AList" "HOL-Library.Char_ord" "HOL-Library.List_Lexorder"
    "HOL-Library.Multiset"
begin

section \<open>Go primitives used by the generator\<close>

text \<open>
  Go strings are byte sequences; \<^typ>\<open>string\<close> is a list of 8-bit characters, and the
  order on it (\<open>List_Lexorder\<close> over \<open>Char_ord\<close>) is the byte-wise lexicographic
  order that Go's \<^verbatim>\<open><\<close> on strings and \<^verbatim>\<open>sort.Strings\<close> use.
\<close>

definition backtick :: char where
  "backtick = CHR 0x60"

definition dquote :: char where
  "dquote = CHR 0x22"

text \<open>\<^verbatim>\<open>strings.HasPrefix(s, prefix)\<close>.\<close>

definition HasPrefix :: "string \<Rightarrow> string \<Rightarrow> bool" where
  "HasPrefix s p = (length p \<le> length s \<and> take (length p) s = p)"

text \<open>\<^verbatim>\<open>strings.Join(elems, sep)\<close>.\<close>

fun Join :: "string list \<Rightarrow> string \<Rightarrow> string" where
  "Join [] sep = []"
| "Join [x] sep = x"
| "Join (x # y # ys) sep = x @ sep @ Join (y # ys) sep"

text \<open>
  A Go \<^verbatim>\<open>map[string]V\<close> is an association list with distinct keys. The position of
  a key in the list stands for the (unspecified) place it has in one iteration of
  \<^verbatim>\<open>range\<close>; statements that must not depend on Go's iteration order quantify over
  every list that holds the same entries.
\<close>

type_synonym 'v gomap = "(string \<times> 'v) list"

definition map_store :: "'v gomap \<Rightarrow> string \<Rightarrow> 'v \<Rightarrow> 'v gomap" where
  "map_store m k v = AList.update k v m"



section \<open>Operation descriptors and the simple-operation test\<close>

text \<open>
  The descriptor types are declared outside the files at hand; the records carry the fields
  the generator code reads. Slices of pointers are lists of records: the operation builder
  never stores a nil element.
\<close>

record ResponseContentDescriptor =
  ContentType :: string
  IsJSON :: bool

record ResponseDescriptor =
  StatusCode :: string
  Contents :: "ResponseContentDescriptor list"

record RequestBodyDescriptor =
  BodyContentType :: string
  IsFormEncoded :: bool
  GenerateTyped :: bool

record OperationDescriptor =
  OperationID :: string
  HasBody :: bool
  Bodies :: "RequestBodyDescriptor list"
  Responses :: "ResponseDescriptor list"

text \<open>
  \<^verbatim>\<open>isSimpleOperation\<close>. The method \<^verbatim>\<open>op.HasTypedBody()\<close> is declared with the
  descriptor type, so it is the parameter \<open>hasTypedBody\<close>.
\<close>

definition isSimpleOperation ::
    "(OperationDescriptor \<Rightarrow> bool) \<Rightarrow> OperationDescriptor \<Rightarrow> bool" where
  "isSimpleOperation hasTypedBody op =
     (if length (Responses op) = 0 then False
      else if HasBody op \<and> \<not> hasTypedBody op then False
      else
        let successResponses = filter (\<lambda>r. HasPrefix (StatusCode r) ''2'') (Responses op)
        in if length successResponses \<noteq> 1 then False
           else
             let success = hd successResponses
             in if length (Contents success) = 0 then False
                else if length (Contents success) \<noteq> 1 then False
                else IsJSON (hd (Contents success)))"

section \<open>The code generation context\<close>

record CodegenContext =
  imports' :: "string gomap"
  helpers :: "bool gomap"
  params :: "bool gomap"
  customTypes :: "bool gomap"
  runtimeParamsPrefix :: string
  runtimeTypesPrefix :: string
  runtimeHelpersPrefix :: string

definition NewCodegenContext :: CodegenContext where
  "NewCodegenContext =
     \<lparr>imports' = [], helpers = [], params = [], customTypes = [],
      runtimeParamsPrefix = [], runtimeTypesPrefix = [], runtimeHelpersPrefix = []\<rparr>"

definition AddImport :: "string \<Rightarrow> CodegenContext \<Rightarrow> CodegenContext" where
  "AddImport path c =
     (if path \<noteq> [] then c\<lparr>imports' := map_store (imports' c) path []\<rparr> else c)"

definition AddImportAlias :: "string \<Rightarrow> string \<Rightarrow> CodegenContext \<Rightarrow> CodegenContext" where
  "AddImportAlias path alias c =
     (if path \<noteq> [] then c\<lparr>imports' := map_store (imports' c) path alias\<rparr> else c)"

definition NeedHelper :: "string \<Rightarrow> CodegenContext \<Rightarrow> CodegenContext" where
  "NeedHelper name c =
     (if name \<noteq> [] then c\<lparr>helpers := map_store (helpers c) name True\<rparr> else c)"

text \<open>
  \<^verbatim>\<open>NeedParam\<close>. \<^verbatim>\<open>templates.ParamStyleKey\<close> belongs to the templates package and is
  the parameter \<open>ParamStyleKey\<close>.
\<close>

definition NeedParam ::
    "(string \<Rightarrow> string \<Rightarrow> bool \<Rightarrow> string) \<Rightarrow> string \<Rightarrow> bool \<Rightarrow> CodegenContext \<Rightarrow> CodegenContext" where
  "NeedParam ParamStyleKey style explode c =
     (let styleKey = ParamStyleKey ''style_'' style explode;
          bindKey = ParamStyleKey ''bind_'' style explode;
          c1 = c\<lparr>params := map_store (params c) styleKey True\<rparr>
      in c1\<lparr>params := map_store (params c1) bindKey True\<rparr>)"

definition NeedCustomType :: "string \<Rightarrow> CodegenContext \<Rightarrow> CodegenContext" where
  "NeedCustomType name c =
     (if name \<noteq> [] then c\<lparr>customTypes := map_store (customTypes c) name True\<rparr> else c)"




definition HasAnyParams :: "CodegenContext \<Rightarrow> bool" where
  "HasAnyParams c = (length (params c) > 0)"


section \<open>Struct tags\<close>

record StructTagInfo =
  FieldName :: string
  IsOptional :: bool

record StructTagTemplate =
  Name :: string
  Template :: string

record StructTagsConfig =
  Tags :: "StructTagTemplate list"

text \<open>
  A parsed template is a value of the type parameter \<open>'t\<close>: Go's \<^verbatim>\<open>text/template\<close>
  is a library, so \<^verbatim>\<open>template.New(name).Parse(text)\<close> is the parameter \<open>parse\<close>
  and \<^verbatim>\<open>tmpl.Execute(&buf, info)\<close> the parameter \<open>execute\<close>; each returns
  \<open>Inl\<close> with the error text when Go's \<^verbatim>\<open>err\<close> is not nil. On success
  \<open>execute\<close> returns the buffer's contents.
\<close>

type_synonym template_error = string

text \<open>The fields \<^verbatim>\<open>name\<close> and \<^verbatim>\<open>tmpl\<close> of \<^verbatim>\<open>tagTemplate\<close>.\<close>

record 't tagTemplate =
  tag_name :: string
  tag_tmpl :: 't

record 't StructTagGenerator =
  templates :: "'t tagTemplate list"

definition DefaultStructTagsConfig :: StructTagsConfig where
  "DefaultStructTagsConfig =
     \<lparr>Tags = [\<lparr>Name = ''json'',
                Template = ''{{ .FieldName }}{{if .IsOptional}},omitempty{{end}}''\<rparr>,
              \<lparr>Name = ''form'',
                Template = ''{{ .FieldName }}{{if .IsOptional}},omitempty{{end}}''\<rparr>]\<rparr>"

text \<open>The loop of \<^verbatim>\<open>NewStructTagGenerator\<close>, with \<open>acc\<close> for \<^verbatim>\<open>g.templates\<close>.\<close>

fun parseTags ::
    "(string \<Rightarrow> string \<Rightarrow> template_error + 't) \<Rightarrow> StructTagTemplate list \<Rightarrow>
     't tagTemplate list \<Rightarrow> 't tagTemplate list" where
  "parseTags parse [] acc = acc"
| "parseTags parse (tag # tags) acc =
     (case parse (Name tag) (Template tag) of
        Inl err \<Rightarrow> parseTags parse tags acc
      | Inr t \<Rightarrow> parseTags parse tags (acc @ [\<lparr>tag_name = Name tag, tag_tmpl = t\<rparr>]))"

definition NewStructTagGenerator ::
    "(string \<Rightarrow> string \<Rightarrow> template_error + 't) \<Rightarrow> StructTagsConfig \<Rightarrow> 't StructTagGenerator" where
  "NewStructTagGenerator parse config = \<lparr>templates = parseTags parse (Tags config) []\<rparr>"

text \<open>The loop of \<^verbatim>\<open>GenerateTags\<close>, with \<open>tags\<close> for the slice it appends to.\<close>

fun renderTags ::
    "('t \<Rightarrow> StructTagInfo \<Rightarrow> template_error + string) \<Rightarrow> StructTagInfo \<Rightarrow>
     't tagTemplate list \<Rightarrow> string list \<Rightarrow> string list" where
  "renderTags execute info [] tags = tags"
| "renderTags execute info (t # ts) tags =
     (case execute (tag_tmpl t) info of
        Inl err \<Rightarrow> renderTags execute info ts tags
      | Inr value \<Rightarrow>
          if value \<noteq> [] then
            renderTags execute info ts (tags @ [tag_name t @ '':'' @ [dquote] @ value @ [dquote]])
          else renderTags execute info ts tags)"

definition GenerateTags ::
    "('t \<Rightarrow> StructTagInfo \<Rightarrow> template_error + string) \<Rightarrow> 't StructTagGenerator \<Rightarrow>
     StructTagInfo \<Rightarrow> string" where
  "GenerateTags execute g info =
     (if length (templates g) = 0 then []
      else
        let tags = renderTags execute info (templates g) []
        in if length tags = 0 then []
           else [backtick] @ Join tags '' '' @ [backtick])"

text \<open>The loop of \<^verbatim>\<open>GenerateTagsMap\<close>, with \<open>result\<close> for the map it fills.\<close>

fun renderTagsMap ::
    "('t \<Rightarrow> StructTagInfo \<Rightarrow> template_error + string) \<Rightarrow> StructTagInfo \<Rightarrow>
     't tagTemplate list \<Rightarrow> string gomap \<Rightarrow> string gomap" where
  "renderTagsMap execute info [] result = result"
| "renderTagsMap execute info (t # ts) result =
     (case execute (tag_tmpl t) info of
        Inl err \<Rightarrow> renderTagsMap execute info ts result
      | Inr value \<Rightarrow>
          if value \<noteq> [] then renderTagsMap execute info ts (map_store result (tag_name t) value)
          else renderTagsMap execute info ts result)"

definition GenerateTagsMap ::
    "('t \<Rightarrow> StructTagInfo \<Rightarrow> template_error + string) \<Rightarrow> 't StructTagGenerator \<Rightarrow>
     StructTagInfo \<Rightarrow> string gomap" where
  "GenerateTagsMap execute g info = renderTagsMap execute info (templates g) []"











section \<open>Generating the runtime packages\<close>

























section \<open>The name resolver\<close>

text \<open>
  Modelled from the spec: the Name Resolver and the schema descriptors it names (sections
  3 and 4.3) are not among the files at hand; the tests of its generated names are. A
  descriptor carries its structural path, its naming section, the raw name taken from the
  document, the type-name override if the operator gave one, and, for a schema under an
  operation, the operation's identifier, the content type and the role token
  (\<^verbatim>\<open>Request\<close>, \<^verbatim>\<open>Response\<close>, \<^verbatim>\<open>Response\<close> with a status code) from which
  the role suffix is formed. \<open>finalName\<close> is unset until resolution has run.
\<close>

type_synonym path = "string list"

datatype naming_section =
    ComponentSchema
  | ParameterSection
  | RequestBody
  | ResponseSection
  | InlineSection

record SchemaDescriptor =
  desc_path :: path
  desc_section :: naming_section
  rawName :: "string option"
  typeNameOverride :: "string option"
  operationID :: string
  contentType :: string
  roleToken :: string
  finalName :: "string option"

text \<open>
  Modelled from the spec: the naming policy is configuration the resolver consumes. It
  holds the mangling of document names and the namer that reduces a content type to its
  short token (\<^verbatim>\<open>JSON\<close> for \<^verbatim>\<open>application/json\<close>).
\<close>

record naming_policy =
  mangle :: "string \<Rightarrow> string"
  shortToken :: "string \<Rightarrow> string"

text \<open>A natural number in decimal, for the numeric suffix.\<close>

definition digit :: "nat \<Rightarrow> char" where
  "digit n = ''0123456789'' ! n"

fun decimal :: "nat \<Rightarrow> string" where
  "decimal n =
     (if n < 10 then [digit n]
      else decimal (n div 10) @ [digit (n mod 10)])"

declare decimal.simps [simp del]

text \<open>
  Modelled from the spec, 4.3 steps 1 to 3: which rule names a descriptor, and the name the
  rule gives before any numeric suffix.
\<close>

datatype name_rule = ByOverride | ByComponentName | ByOperation

definition nameRule :: "SchemaDescriptor \<Rightarrow> name_rule" where
  "nameRule d =
     (if typeNameOverride d \<noteq> None then ByOverride
      else if desc_section d = ComponentSchema \<and> rawName d \<noteq> None then ByComponentName
      else ByOperation)"

definition roleSuffix :: "naming_policy \<Rightarrow> SchemaDescriptor \<Rightarrow> string" where
  "roleSuffix pol d = shortToken pol (contentType d) @ roleToken d"

definition baseName :: "naming_policy \<Rightarrow> SchemaDescriptor \<Rightarrow> string" where
  "baseName pol d =
     (case typeNameOverride d of
        Some n \<Rightarrow> n
      | None \<Rightarrow>
          (case rawName d of
             Some n \<Rightarrow>
               if desc_section d = ComponentSchema then mangle pol n
               else operationID d @ roleSuffix pol d
           | None \<Rightarrow> operationID d @ roleSuffix pol d))"

text \<open>
  Modelled from the spec, 4.3 steps 4 and 5: the descriptors that collide with \<open>d\<close> are
  those named by step 3, in the same section, with the same derived name. Once a base name
  has more than one of them, each gets a 1-based number in declaration order: its position
  among the colliding descriptors declared up to and including itself.
\<close>

definition collidesWith :: "naming_policy \<Rightarrow> SchemaDescriptor \<Rightarrow> SchemaDescriptor \<Rightarrow> bool" where
  "collidesWith pol d e =
     (nameRule e = ByOperation \<and> desc_section e = desc_section d \<and>
      baseName pol e = baseName pol d)"

definition chooseName ::
    "naming_policy \<Rightarrow> SchemaDescriptor list \<Rightarrow> SchemaDescriptor list \<Rightarrow> SchemaDescriptor \<Rightarrow> string" where
  "chooseName pol all sofar d =
     (if nameRule d = ByOperation \<and> length (filter (collidesWith pol d) all) > 1
      then baseName pol d @ decimal (length (filter (collidesWith pol d) sofar))
      else baseName pol d)"

fun assignNames ::
    "naming_policy \<Rightarrow> SchemaDescriptor list \<Rightarrow> SchemaDescriptor list \<Rightarrow> SchemaDescriptor list \<Rightarrow>
     SchemaDescriptor list" where
  "assignNames pol all seen [] = []"
| "assignNames pol all seen (d # rest) =
     d\<lparr>finalName := Some (chooseName pol all (seen @ [d]) d)\<rparr>
       # assignNames pol all (seen @ [d]) rest"

text \<open>
  Modelled from the spec, 4.3 step 1 and its failure: two explicit overrides that resolve
  to the same name in one section are a fatal error, reported with both paths.
\<close>

datatype resolve_error = OverrideCollision path path

definition overrideClash :: "SchemaDescriptor \<Rightarrow> SchemaDescriptor \<Rightarrow> bool" where
  "overrideClash d e =
     (typeNameOverride d \<noteq> None \<and> typeNameOverride e = typeNameOverride d \<and>
      desc_section e = desc_section d)"

fun overrideCollision :: "SchemaDescriptor list \<Rightarrow> (path \<times> path) option" where
  "overrideCollision [] = None"
| "overrideCollision (d # ds) =
     (case find (overrideClash d) ds of
        Some e \<Rightarrow> Some (desc_path d, desc_path e)
      | None \<Rightarrow> overrideCollision ds)"

definition resolveNames ::
    "naming_policy \<Rightarrow> SchemaDescriptor list \<Rightarrow> resolve_error + SchemaDescriptor list" where
  "resolveNames pol ds =
     (case overrideCollision ds of
        Some (p1, p2) \<Rightarrow> Inl (OverrideCollision p1 p2)
      | None \<Rightarrow> Inr (assignNames pol ds [] ds))"

text \<open>A policy and the request bodies of one operation, for evaluation.\<close>

definition json_policy :: naming_policy where
  "json_policy =
     \<lparr>mangle = (\<lambda>n. n),
      shortToken = (\<lambda>ct. if ct \<in> {''application/json'', ''application/merge-patch+json'',
                                     ''application/json-patch+json''} then ''JSON'' else ct)\<rparr>"

definition order_body :: "string \<Rightarrow> string option \<Rightarrow> SchemaDescriptor" where
  "order_body ct ov =
     \<lparr>desc_path = [''paths'', ''/orders'', ''post'', ''requestBody'', ''content'', ct, ''schema''],
      desc_section = RequestBody, rawName = None, typeNameOverride = ov,
      operationID = ''CreateOrder'', contentType = ct, roleToken = ''Request'',
      finalName = None\<rparr>"

text \<open>Descriptors of a component schema and of an inline schema under an operation.\<close>

definition component_schema :: "string \<Rightarrow> string option \<Rightarrow> SchemaDescriptor" where
  "component_schema n ov =
     \<lparr>desc_path = [''components'', ''schemas'', n], desc_section = ComponentSchema,
      rawName = Some n, typeNameOverride = ov, operationID = [], contentType = [],
      roleToken = [], finalName = None\<rparr>"

definition inline_schema ::
    "naming_section \<Rightarrow> string \<Rightarrow> string \<Rightarrow> string \<Rightarrow> SchemaDescriptor" where
  "inline_schema sec n opid token =
     \<lparr>desc_path = [''paths'', opid, token, ''content'', ''application/json'', ''schema''],
      desc_section = sec, rawName = Some n, typeNameOverride = None, operationID = opid,
      contentType = ''application/json'', roleToken = token, finalName = None\<rparr>"

section \<open>Properties of the simple-operation test\<close>

lemma length_one_conv: "(length xs = Suc 0) = (\<exists>x. xs = [x])"
  by (cases xs) auto

lemma nonempty_length_conv: "(Suc 0 \<le> length xs) = (xs \<noteq> [])"
  by (cases xs) auto

text \<open>
  Claim C1. \<^verbatim>\<open>isSimpleOperation\<close> holds exactly when the operation has at least one
  response, exactly one response whose status code starts with \<^verbatim>\<open>2\<close>, that response
  has exactly one content descriptor, the descriptor is JSON, and an operation with a body
  has a typed body; otherwise it is false.
\<close>

theorem isSimpleOperation_iff:
  "isSimpleOperation hasTypedBody op =
     (length (Responses op) \<ge> 1 \<and>
      (\<exists>success. filter (\<lambda>r. HasPrefix (StatusCode r) ''2'') (Responses op) = [success] \<and>
         (\<exists>content. Contents success = [content] \<and> IsJSON content)) \<and>
      (HasBody op \<longrightarrow> hasTypedBody op))"
proof (cases "Responses op = [] \<or> (HasBody op \<and> \<not> hasTypedBody op)")
  case True
  then show ?thesis
    by (auto simp: isSimpleOperation_def)
next
  case False
  then show ?thesis
    by (auto simp: isSimpleOperation_def Let_def length_one_conv nonempty_length_conv)
qed

theorem isSimpleOperation_iff_witness:
  "isSimpleOperation (\<lambda>op. \<exists>b \<in> set (Bodies op). GenerateTyped b)
     \<lparr>OperationID = ''createPet'', HasBody = True,
      Bodies = [\<lparr>BodyContentType = ''application/json'', IsFormEncoded = False,
                 GenerateTyped = True\<rparr>],
      Responses = [\<lparr>StatusCode = ''201'',
                    Contents = [\<lparr>ContentType = ''application/json'', IsJSON = True\<rparr>]\<rparr>,
                   \<lparr>StatusCode = ''default'',
                    Contents = [\<lparr>ContentType = ''application/json'', IsJSON = True\<rparr>]\<rparr>]\<rparr>
   \<and> \<not> isSimpleOperation (\<lambda>op. \<exists>b \<in> set (Bodies op). GenerateTyped b)
     \<lparr>OperationID = ''upload'', HasBody = True,
      Bodies = [\<lparr>BodyContentType = ''application/octet-stream'', IsFormEncoded = False,
                 GenerateTyped = False\<rparr>],
      Responses = [\<lparr>StatusCode = ''200'',
                    Contents = [\<lparr>ContentType = ''application/json'', IsJSON = True\<rparr>]\<rparr>]\<rparr>"
  by (simp add: isSimpleOperation_iff HasPrefix_def)

section \<open>Properties of the context\<close>

lemma map_store_twice: "map_store (map_store m k v) k v = map_store m k v"
  by (simp add: map_store_def)

lemma map_store_present: "map_of m k = Some v \<Longrightarrow> map_store m k v = m"
  by (simp add: map_store_def update_triv)

lemma map_of_map_store: "map_of (map_store m k v) k' = (if k' = k then Some v else map_of m k')"
  by (simp add: map_store_def update_conv)



lemma NeedParam_twice:
  "NeedParam psk style explode (NeedParam psk style explode c) = NeedParam psk style explode c"
proof -
  let ?s = "psk ''style_'' style explode" and ?b = "psk ''bind_'' style explode"
  let ?m = "map_store (map_store (params c) ?s True) ?b True"
  have s: "map_store ?m ?s True = ?m"
    by (rule map_store_present) (simp add: map_of_map_store)
  have b: "map_store ?m ?b True = ?m"
    by (rule map_store_present) (simp add: map_of_map_store)
  show ?thesis
    by (simp add: NeedParam_def Let_def s b)
qed

text \<open>
  Claim C5. Each registration method of the context is idempotent: a second call with the
  same argument leaves the context exactly as the first call left it.
\<close>

theorem registration_idempotent:
  "AddImport path (AddImport path c) = AddImport path c \<and>
   AddImportAlias path alias (AddImportAlias path alias c) = AddImportAlias path alias c \<and>
   NeedHelper name (NeedHelper name c) = NeedHelper name c \<and>
   NeedParam ParamStyleKey style explode (NeedParam ParamStyleKey style explode c) =
     NeedParam ParamStyleKey style explode c \<and>
   NeedCustomType name (NeedCustomType name c) = NeedCustomType name c"
  by (simp add: AddImport_def AddImportAlias_def NeedHelper_def NeedCustomType_def
      map_store_twice NeedParam_twice)

theorem registration_idempotent_witness:
  "NeedHelper ''marshal_form'' (NeedHelper ''marshal_form'' NewCodegenContext) =
     NewCodegenContext\<lparr>helpers := [(''marshal_form'', True)]\<rparr> \<and>
   AddImportAlias ''github.com/google/uuid'' ''googleuuid''
     (AddImportAlias ''github.com/google/uuid'' ''googleuuid''
        (AddImport ''github.com/google/uuid'' NewCodegenContext)) =
     NewCodegenContext\<lparr>imports' := [(''github.com/google/uuid'', ''googleuuid'')]\<rparr>"
proof -
  have "NeedHelper ''marshal_form'' (NeedHelper ''marshal_form'' NewCodegenContext) =
        NeedHelper ''marshal_form'' NewCodegenContext"
    using registration_idempotent [of "[]" NewCodegenContext "[]" "''marshal_form''"]
    by simp
  moreover have "AddImportAlias ''github.com/google/uuid'' ''googleuuid''
     (AddImportAlias ''github.com/google/uuid'' ''googleuuid''
        (AddImport ''github.com/google/uuid'' NewCodegenContext)) =
     AddImportAlias ''github.com/google/uuid'' ''googleuuid''
        (AddImport ''github.com/google/uuid'' NewCodegenContext)"
    using registration_idempotent [of "''github.com/google/uuid''"
        "AddImport ''github.com/google/uuid'' NewCodegenContext" "''googleuuid''"]
    by simp
  ultimately show ?thesis
    by (simp add: NeedHelper_def AddImportAlias_def AddImport_def NewCodegenContext_def
        map_store_def)
qed

section \<open>Sorted, order-independent queries\<close>






















section \<open>Struct tag generation never fails\<close>

lemma parseTags_acc:
  "parseTags parse tags acc =
     acc @ map (\<lambda>tag. \<lparr>tag_name = Name tag, tag_tmpl = projr (parse (Name tag) (Template tag))\<rparr>)
             (filter (\<lambda>tag. \<not> isl (parse (Name tag) (Template tag))) tags)"
  by (induction tags arbitrary: acc) (auto split: sum.splits)

lemma renderTags_acc:
  "renderTags execute info ts acc =
     acc @ map (\<lambda>t. tag_name t @ '':'' @ [dquote] @ projr (execute (tag_tmpl t) info) @ [dquote])
             (filter (\<lambda>t. \<not> isl (execute (tag_tmpl t) info) \<and>
                           projr (execute (tag_tmpl t) info) \<noteq> []) ts)"
  by (induction ts arbitrary: acc) (auto split: sum.splits)

text \<open>
  Claim C9. A tag template that does not parse never stops generation:
  \<^verbatim>\<open>NewStructTagGenerator\<close> always returns a generator, which holds, in order, exactly
  the tags whose template parsed; \<^verbatim>\<open>GenerateTags\<close> always returns a string, built
  from exactly the templates that render without error to a non-empty value, and it is
  the empty string when no tag survives.
\<close>

theorem struct_tags_degrade_gracefully:
  "templates (NewStructTagGenerator parse config) =
     map (\<lambda>tag. \<lparr>tag_name = Name tag, tag_tmpl = projr (parse (Name tag) (Template tag))\<rparr>)
       (filter (\<lambda>tag. \<not> isl (parse (Name tag) (Template tag))) (Tags config)) \<and>
   GenerateTags execute g info =
     (let tags =
        map (\<lambda>t. tag_name t @ '':'' @ [dquote] @ projr (execute (tag_tmpl t) info) @ [dquote])
          (filter (\<lambda>t. \<not> isl (execute (tag_tmpl t) info) \<and>
                        projr (execute (tag_tmpl t) info) \<noteq> []) (templates g))
      in if tags = [] then [] else [backtick] @ Join tags '' '' @ [backtick]) \<and>
   ((\<forall>t \<in> set (templates g).
        isl (execute (tag_tmpl t) info) \<or> projr (execute (tag_tmpl t) info) = []) \<longrightarrow>
      GenerateTags execute g info = [])"
proof (intro conjI impI)
  show "templates (NewStructTagGenerator parse config) =
     map (\<lambda>tag. \<lparr>tag_name = Name tag, tag_tmpl = projr (parse (Name tag) (Template tag))\<rparr>)
       (filter (\<lambda>tag. \<not> isl (parse (Name tag) (Template tag))) (Tags config))"
    by (simp add: NewStructTagGenerator_def parseTags_acc)
  show "GenerateTags execute g info =
     (let tags =
        map (\<lambda>t. tag_name t @ '':'' @ [dquote] @ projr (execute (tag_tmpl t) info) @ [dquote])
          (filter (\<lambda>t. \<not> isl (execute (tag_tmpl t) info) \<and>
                        projr (execute (tag_tmpl t) info) \<noteq> []) (templates g))
      in if tags = [] then [] else [backtick] @ Join tags '' '' @ [backtick])"
    by (simp add: GenerateTags_def renderTags_acc Let_def)
  assume "\<forall>t \<in> set (templates g).
        isl (execute (tag_tmpl t) info) \<or> projr (execute (tag_tmpl t) info) = []"
  then have "filter (\<lambda>t. \<not> isl (execute (tag_tmpl t) info) \<and>
                        projr (execute (tag_tmpl t) info) \<noteq> []) (templates g) = []"
    by (auto simp: filter_empty_conv)
  then show "GenerateTags execute g info = []"
    by (simp add: GenerateTags_def renderTags_acc Let_def)
qed

theorem struct_tags_degrade_gracefully_witness:
  "templates
     (NewStructTagGenerator
        (\<lambda>n text. if text = ''{{'' then Inl ''unclosed action'' else Inr text)
        \<lparr>Tags = [\<lparr>Name = ''json'', Template = ''{{ .FieldName }}''\<rparr>,
                 \<lparr>Name = ''bad'', Template = ''{{''\<rparr>,
                 \<lparr>Name = ''yaml'', Template = ''{{ .Missing }}''\<rparr>]\<rparr>) =
     [\<lparr>tag_name = ''json'', tag_tmpl = ''{{ .FieldName }}''\<rparr>,
      \<lparr>tag_name = ''yaml'', tag_tmpl = ''{{ .Missing }}''\<rparr>] \<and>
   GenerateTags
     (\<lambda>t info. if t = ''{{ .Missing }}'' then Inl ''no such field'' else Inr (FieldName info))
     \<lparr>templates = [\<lparr>tag_name = ''yaml'', tag_tmpl = ''{{ .Missing }}''\<rparr>]\<rparr>
     \<lparr>FieldName = ''id'', IsOptional = False\<rparr> = [] \<and>
   GenerateTags
     (\<lambda>t info. if t = ''{{ .Missing }}'' then Inl ''no such field'' else Inr (FieldName info))
     \<lparr>templates = [\<lparr>tag_name = ''json'', tag_tmpl = ''{{ .FieldName }}''\<rparr>,
                   \<lparr>tag_name = ''yaml'', tag_tmpl = ''{{ .Missing }}''\<rparr>]\<rparr>
     \<lparr>FieldName = ''id'', IsOptional = False\<rparr> =
     [backtick] @ ''json:'' @ [dquote] @ ''id'' @ [dquote] @ [backtick]"
proof -
  let ?parse = "\<lambda>(n :: string) text. if text = ''{{'' then Inl ''unclosed action'' else Inr text"
  let ?exec = "\<lambda>t info. if t = ''{{ .Missing }}'' then Inl ''no such field''
                         else Inr (FieldName info)"
  let ?info = "\<lparr>FieldName = ''id'', IsOptional = False\<rparr>"
  note a = struct_tags_degrade_gracefully [of ?parse
      "\<lparr>Tags = [\<lparr>Name = ''json'', Template = ''{{ .FieldName }}''\<rparr>,
                 \<lparr>Name = ''bad'', Template = ''{{''\<rparr>,
                 \<lparr>Name = ''yaml'', Template = ''{{ .Missing }}''\<rparr>]\<rparr>"
      ?exec "\<lparr>templates = [\<lparr>tag_name = ''yaml'', tag_tmpl = ''{{ .Missing }}''\<rparr>]\<rparr>" ?info]
  note b = struct_tags_degrade_gracefully [of ?parse "\<lparr>Tags = []\<rparr>"
      ?exec "\<lparr>templates = [\<lparr>tag_name = ''json'', tag_tmpl = ''{{ .FieldName }}''\<rparr>,
                   \<lparr>tag_name = ''yaml'', tag_tmpl = ''{{ .Missing }}''\<rparr>]\<rparr>" ?info]
  have 1: "templates (NewStructTagGenerator ?parse
        \<lparr>Tags = [\<lparr>Name = ''json'', Template = ''{{ .FieldName }}''\<rparr>,
                 \<lparr>Name = ''bad'', Template = ''{{''\<rparr>,
                 \<lparr>Name = ''yaml'', Template = ''{{ .Missing }}''\<rparr>]\<rparr>) =
     [\<lparr>tag_name = ''json'', tag_tmpl = ''{{ .FieldName }}''\<rparr>,
      \<lparr>tag_name = ''yaml'', tag_tmpl = ''{{ .Missing }}''\<rparr>]"
    using a by simp
  have 2: "GenerateTags ?exec
     \<lparr>templates = [\<lparr>tag_name = ''yaml'', tag_tmpl = ''{{ .Missing }}''\<rparr>]\<rparr> ?info = []"
    using a by simp
  have 3: "GenerateTags ?exec
     \<lparr>templates = [\<lparr>tag_name = ''json'', tag_tmpl = ''{{ .FieldName }}''\<rparr>,
                   \<lparr>tag_name = ''yaml'', tag_tmpl = ''{{ .Missing }}''\<rparr>]\<rparr> ?info =
     [backtick] @ ''json:'' @ [dquote] @ ''id'' @ [dquote] @ [backtick]"
    using b by simp
  from 1 2 3 show ?thesis
    by (intro conjI)
qed

section \<open>The runtime generator's results\<close>











section \<open>Names the resolver assigns\<close>

lemma decimal_digits:
  "decimal (Suc 0) = ''1''" "decimal (Suc (Suc 0)) = ''2''"
  "decimal (Suc (Suc (Suc 0))) = ''3''"
  by (simp_all add: decimal.simps [of "Suc 0"] decimal.simps [of "Suc (Suc 0)"]
      decimal.simps [of "Suc (Suc (Suc 0))"] digit_def)

lemma assignNames_length: "length (assignNames pol all seen ds) = length ds"
  by (induction ds arbitrary: seen) simp_all

lemma assignNames_nth:
  "i < length ds \<Longrightarrow>
   assignNames pol all seen ds ! i =
     (ds ! i)\<lparr>finalName := Some (chooseName pol all (seen @ take (Suc i) ds) (ds ! i))\<rparr>"
proof (induction ds arbitrary: seen i)
  case Nil
  then show ?case by simp
next
  case (Cons d ds)
  show ?case
  proof (cases i)
    case 0
    then show ?thesis by simp
  next
    case (Suc j)
    with Cons.prems have "j < length ds" by simp
    from Cons.IH [OF this, of "seen @ [d]"] Suc show ?thesis by simp
  qed
qed

lemma resolveNames_nth:
  assumes "resolveNames pol ds = Inr rs" "i < length ds"
  shows "rs ! i = (ds ! i)\<lparr>finalName := Some (chooseName pol ds (take (Suc i) ds) (ds ! i))\<rparr>"
  using assms assignNames_nth [of i ds pol ds "[]"]
  by (auto simp: resolveNames_def split: option.splits)

lemma resolveNames_length:
  assumes "resolveNames pol ds = Inr rs"
  shows "length rs = length ds"
  using assms by (auto simp: resolveNames_def assignNames_length split: option.splits)

lemma collidesWith_cong:
  assumes "desc_section d = desc_section d'" "baseName pol d = baseName pol d'"
  shows "collidesWith pol d = collidesWith pol d'"
  using assms by (simp add: collidesWith_def fun_eq_iff)

lemma filter_none: "\<forall>e \<in> set xs. \<not> P e \<Longrightarrow> filter P xs = []"
  by (induction xs) auto

text \<open>
  Claim C2, as stated, fails: when one of the three request-body schemas carries an explicit
  type-name override, step 1 names it by the override, and the two schemas left to the
  numeric fallback get the suffixes 1 and 2.
\<close>

theorem numeric_fallback_override_counterexample:
  "map_sum id (map finalName)
     (resolveNames json_policy
        [order_body ''application/json'' None,
         order_body ''application/merge-patch+json'' (Some ''OrderPatch''),
         order_body ''application/json-patch+json'' None]) =
   Inr [Some ''CreateOrderJSONRequest1'', Some ''OrderPatch'', Some ''CreateOrderJSONRequest2'']"
  by (simp add: resolveNames_def overrideClash_def order_body_def json_policy_def
      chooseName_def collidesWith_def nameRule_def baseName_def roleSuffix_def decimal_digits)

text \<open>
  Claim C2, amended. Take an operation whose request body declares, in this order, the
  content types \<^verbatim>\<open>application/json\<close>, \<^verbatim>\<open>application/merge-patch+json\<close> and
  \<^verbatim>\<open>application/json-patch+json\<close>, all reduced to the token \<^verbatim>\<open>JSON\<close>, none of
  the three schemas carrying an explicit type-name override and no other schema of the
  request-body section deriving the same base name. Then resolution names the three
  schemas by the base name followed by 1, 2 and 3 in declaration order; the names are
  distinct and none is the bare base name.
\<close>

theorem numeric_fallback_three_json_bodies:
  assumes tok: "shortToken pol ''application/json'' = ''JSON''"
      "shortToken pol ''application/merge-patch+json'' = ''JSON''"
      "shortToken pol ''application/json-patch+json'' = ''JSON''"
    and cts: "contentType b1 = ''application/json''"
      "contentType b2 = ''application/merge-patch+json''"
      "contentType b3 = ''application/json-patch+json''"
    and bodies: "\<forall>b \<in> {b1, b2, b3}. desc_section b = RequestBody \<and> operationID b = opid \<and>
        roleToken b = ''Request'' \<and> typeNameOverride b = None"
    and others: "\<forall>e \<in> set (pre @ mid1 @ mid2 @ post). \<not> collidesWith pol b1 e"
    and ok: "resolveNames pol (pre @ [b1] @ mid1 @ [b2] @ mid2 @ [b3] @ post) = Inr rs"
  shows "finalName (rs ! length pre) = Some (opid @ ''JSONRequest1'') \<and>
         finalName (rs ! (length pre + 1 + length mid1)) = Some (opid @ ''JSONRequest2'') \<and>
         finalName (rs ! (length pre + 1 + length mid1 + 1 + length mid2)) =
           Some (opid @ ''JSONRequest3'') \<and>
         distinct [opid @ ''JSONRequest1'', opid @ ''JSONRequest2'', opid @ ''JSONRequest3''] \<and>
         opid @ ''JSONRequest'' \<notin>
           {opid @ ''JSONRequest1'', opid @ ''JSONRequest2'', opid @ ''JSONRequest3''}"
proof -
  let ?ds = "pre @ [b1] @ mid1 @ [b2] @ mid2 @ [b3] @ post"
  let ?P = "collidesWith pol b1"
  have rule: "nameRule b1 = ByOperation" "nameRule b2 = ByOperation" "nameRule b3 = ByOperation"
    using bodies by (simp_all add: nameRule_def)
  have base: "baseName pol b1 = opid @ ''JSONRequest''" "baseName pol b2 = opid @ ''JSONRequest''"
      "baseName pol b3 = opid @ ''JSONRequest''"
    using bodies tok cts by (simp_all add: baseName_def roleSuffix_def split: option.splits)
  have P2: "collidesWith pol b2 = ?P" and P3: "collidesWith pol b3 = ?P"
    using bodies base by (simp_all add: collidesWith_cong)
  have P: "?P b1" "?P b2" "?P b3"
    using bodies base rule by (simp_all add: collidesWith_def)
  have none: "filter ?P pre = []" "filter ?P mid1 = []" "filter ?P mid2 = []"
      "filter ?P post = []"
    using others by (simp_all add: filter_none)
  have all: "filter ?P ?ds = [b1, b2, b3]"
    using P none by simp
  have t1: "take (Suc (length pre)) ?ds = pre @ [b1]"
    by simp
  have t2: "take (Suc (length pre + 1 + length mid1)) ?ds = pre @ [b1] @ mid1 @ [b2]"
    by simp
  have t3: "take (Suc (length pre + 1 + length mid1 + 1 + length mid2)) ?ds =
      pre @ [b1] @ mid1 @ [b2] @ mid2 @ [b3]"
    using append_eq_conv_conj [of "pre @ [b1] @ mid1 @ [b2] @ mid2 @ [b3]" post ?ds]
    by simp
  have n1: "?ds ! length pre = b1"
    by simp
  have n2: "?ds ! (length pre + 1 + length mid1) = b2"
    by (simp add: nth_append)
  have n3: "?ds ! (length pre + 1 + length mid1 + 1 + length mid2) = b3"
    by (simp add: nth_append)
  have r1: "rs ! length pre = b1\<lparr>finalName := Some (opid @ ''JSONRequest'' @ ''1'')\<rparr>"
    using resolveNames_nth [OF ok, of "length pre"] P none
    by (simp only: t1 n1) (simp add: chooseName_def rule base all decimal_digits)
  have r2: "rs ! (length pre + 1 + length mid1) =
      b2\<lparr>finalName := Some (opid @ ''JSONRequest'' @ ''2'')\<rparr>"
    using resolveNames_nth [OF ok, of "length pre + 1 + length mid1"] P none
    by (simp only: t2 n2) (simp add: chooseName_def rule base all P2 decimal_digits)
  have r3: "rs ! (length pre + 1 + length mid1 + 1 + length mid2) =
      b3\<lparr>finalName := Some (opid @ ''JSONRequest'' @ ''3'')\<rparr>"
    using resolveNames_nth [OF ok, of "length pre + 1 + length mid1 + 1 + length mid2"] P none
    by (simp only: t3 n3) (simp add: chooseName_def rule base all P3 decimal_digits)
  from r1 r2 r3 show ?thesis
    by simp
qed

theorem numeric_fallback_three_json_bodies_witness:
  "map_sum id (map finalName)
     (resolveNames json_policy
        [order_body ''application/json'' None,
         order_body ''application/merge-patch+json'' None,
         order_body ''application/json-patch+json'' None]) =
   Inr [Some ''CreateOrderJSONRequest1'', Some ''CreateOrderJSONRequest2'',
        Some ''CreateOrderJSONRequest3'']"
proof -
  let ?b1 = "order_body ''application/json'' None"
  let ?b2 = "order_body ''application/merge-patch+json'' None"
  let ?b3 = "order_body ''application/json-patch+json'' None"
  obtain rs where ok: "resolveNames json_policy ([] @ [?b1] @ [] @ [?b2] @ [] @ [?b3] @ []) = Inr rs"
    by (simp add: resolveNames_def overrideClash_def order_body_def)
  then have len: "length rs = Suc (Suc (Suc 0))"
    using resolveNames_length [OF ok] by simp
  have "finalName (rs ! 0) = Some ''CreateOrderJSONRequest1'' \<and>
        finalName (rs ! Suc 0) = Some ''CreateOrderJSONRequest2'' \<and>
        finalName (rs ! Suc (Suc 0)) = Some ''CreateOrderJSONRequest3''"
    using numeric_fallback_three_json_bodies [of json_policy ?b1 ?b2 ?b3 "''CreateOrder''"
        "[]" "[]" "[]" "[]" rs] ok
    by (simp add: json_policy_def order_body_def)
  moreover have "rs = [rs ! 0, rs ! Suc 0, rs ! Suc (Suc 0)]"
    using len by (auto simp: list_eq_iff_nth_eq nth_Cons' less_Suc_eq)
  ultimately have "map finalName rs = [Some ''CreateOrderJSONRequest1'',
      Some ''CreateOrderJSONRequest2'', Some ''CreateOrderJSONRequest3'']"
    by (metis list.simps(8) list.simps(9))
  with ok show ?thesis
    by simp
qed
text \<open>
  Claim C7, as stated, fails: a component schema that carries an explicit type-name
  override is named by the override (step 1), not by its bare mangled name, also when an
  inline response schema shares its raw name.
\<close>

theorem component_override_counterexample:
  "map_sum id (map finalName)
     (resolveNames json_policy
        [component_schema ''Qux'' (Some ''CustomQux''),
         inline_schema ResponseSection ''Qux'' ''GetQux'' ''Response'']) =
   Inr [Some ''CustomQux'', Some ''GetQuxJSONResponse''] \<and>
   mangle json_policy ''Qux'' \<noteq> ''CustomQux''"
  by (simp add: resolveNames_def overrideClash_def component_schema_def inline_schema_def
      json_policy_def chooseName_def collidesWith_def nameRule_def baseName_def roleSuffix_def)

text \<open>
  Claim C7, amended. In every document that resolves, a named component schema is assigned
  its explicit type-name override when it carries one and its bare mangled name otherwise,
  whatever else shares its raw name; a schema of the request-body or response section is
  assigned its override when it carries one and otherwise a name derived from the
  operation: the operation's identifier and the role suffix, followed by a 1-based number
  exactly when several schemas of that section derive the same name.
\<close>

theorem component_keeps_bare_name:
  assumes ok: "resolveNames pol ds = Inr rs"
    and c: "i < length ds" "desc_section (ds ! i) = ComponentSchema" "rawName (ds ! i) = Some n"
    and d: "j < length ds" "desc_section (ds ! j) \<in> {RequestBody, ResponseSection}"
  shows "finalName (rs ! i) =
           Some (case typeNameOverride (ds ! i) of Some ov \<Rightarrow> ov | None \<Rightarrow> mangle pol n) \<and>
         (case typeNameOverride (ds ! j) of
            Some ov \<Rightarrow> finalName (rs ! j) = Some ov
          | None \<Rightarrow>
              finalName (rs ! j) = Some (operationID (ds ! j) @ roleSuffix pol (ds ! j)) \<and>
                length (filter (collidesWith pol (ds ! j)) ds) = 1 \<or>
              (\<exists>k \<ge> 1. finalName (rs ! j) =
                   Some (operationID (ds ! j) @ roleSuffix pol (ds ! j) @ decimal k) \<and>
                 length (filter (collidesWith pol (ds ! j)) ds) > 1))"
proof
  show "finalName (rs ! i) =
      Some (case typeNameOverride (ds ! i) of Some ov \<Rightarrow> ov | None \<Rightarrow> mangle pol n)"
    using resolveNames_nth [OF ok c(1)] c(2,3)
    by (simp add: chooseName_def nameRule_def baseName_def split: option.splits)
next
  let ?d = "ds ! j"
  show "case typeNameOverride ?d of
      Some ov \<Rightarrow> finalName (rs ! j) = Some ov
    | None \<Rightarrow>
        finalName (rs ! j) = Some (operationID ?d @ roleSuffix pol ?d) \<and>
          length (filter (collidesWith pol ?d) ds) = 1 \<or>
        (\<exists>k \<ge> 1. finalName (rs ! j) = Some (operationID ?d @ roleSuffix pol ?d @ decimal k) \<and>
           length (filter (collidesWith pol ?d) ds) > 1)"
  proof (cases "typeNameOverride ?d")
    case (Some ov)
    then show ?thesis
      using resolveNames_nth [OF ok d(1)]
      by (simp add: chooseName_def nameRule_def baseName_def)
  next
    case None
    then have rule: "nameRule ?d = ByOperation"
      using d(2) by (auto simp: nameRule_def)
    have base: "baseName pol ?d = operationID ?d @ roleSuffix pol ?d"
      using None d(2) by (auto simp: baseName_def split: option.splits)
    have self: "collidesWith pol ?d ?d"
      using rule by (simp add: collidesWith_def)
    have mem: "?d \<in> set (take (Suc j) ds)"
      using d(1) by (simp add: take_Suc_conv_app_nth)
    then have pos: "length (filter (collidesWith pol ?d) (take (Suc j) ds)) \<ge> 1"
      using self by (metis One_nat_def Suc_leI filter_empty_conv length_greater_0_conv)
    have "?d \<in> set ds"
      using d(1) by simp
    then have pos': "length (filter (collidesWith pol ?d) ds) \<ge> 1"
      using self by (metis One_nat_def Suc_leI filter_empty_conv length_greater_0_conv)
    show ?thesis
    proof (cases "length (filter (collidesWith pol ?d) ds) > 1")
      case True
      then show ?thesis
        using resolveNames_nth [OF ok d(1)] None rule base pos
        by (auto simp: chooseName_def)
    next
      case False
      with pos' have "length (filter (collidesWith pol ?d) ds) = 1"
        by simp
      then show ?thesis
        using resolveNames_nth [OF ok d(1)] None rule base
        by (simp add: chooseName_def)
    qed
  qed
qed

theorem component_keeps_bare_name_witness:
  "map_sum id (map finalName)
     (resolveNames json_policy
        [component_schema ''Bar'' None,
         inline_schema RequestBody ''Bar'' ''PostFoo'' ''Request'',
         inline_schema ResponseSection ''Bar'' ''PostFoo'' ''Response'']) =
   Inr [Some ''Bar'', Some ''PostFooJSONRequest'', Some ''PostFooJSONResponse'']"
proof -
  let ?ds = "[component_schema ''Bar'' None,
         inline_schema RequestBody ''Bar'' ''PostFoo'' ''Request'',
         inline_schema ResponseSection ''Bar'' ''PostFoo'' ''Response'']"
  obtain rs where ok: "resolveNames json_policy ?ds = Inr rs"
    by (simp add: resolveNames_def overrideClash_def component_schema_def inline_schema_def)
  have len: "length rs = Suc (Suc (Suc 0))"
    using resolveNames_length [OF ok] by simp
  have one: "length (filter (collidesWith json_policy (?ds ! Suc 0)) ?ds) = 1"
      "length (filter (collidesWith json_policy (?ds ! Suc (Suc 0))) ?ds) = 1"
    by (simp_all add: collidesWith_def nameRule_def baseName_def roleSuffix_def
        component_schema_def inline_schema_def json_policy_def)
  have a: "finalName (rs ! 0) = Some ''Bar'' \<and> finalName (rs ! Suc 0) = Some ''PostFooJSONRequest''"
    using component_keeps_bare_name [OF ok, of 0 "''Bar''" "Suc 0"] one(1)
    by (simp add: component_schema_def inline_schema_def json_policy_def roleSuffix_def)
  have b: "finalName (rs ! Suc (Suc 0)) = Some ''PostFooJSONResponse''"
    using component_keeps_bare_name [OF ok, of 0 "''Bar''" "Suc (Suc 0)"] one(2)
    by (simp add: component_schema_def inline_schema_def json_policy_def roleSuffix_def)
  have "rs = [rs ! 0, rs ! Suc 0, rs ! Suc (Suc 0)]"
    using len by (auto simp: list_eq_iff_nth_eq nth_Cons' less_Suc_eq)
  then have "map finalName rs = [finalName (rs ! 0), finalName (rs ! Suc 0),
      finalName (rs ! Suc (Suc 0))]"
    by (metis list.simps(8) list.simps(9))
  with a b ok show ?thesis
    by simp
qed

end
